theory Spec2Isabelle
  imports Main
begin

section \<open>DNS override through the resolver file (Linux, package dns)\<close>

text \<open>
  The daemon overrides \<^verbatim>\<open>/etc/resolv.conf\<close> while a tunnel is up. The original file
  is moved to \<^verbatim>\<open>/etc/resolv.conf.ivpnsave\<close> and moved back on teardown. This theory
  embeds the functions \<^verbatim>\<open>rconf_*\<close> of the Linux implementation: the two paths they
  touch, the system calls they make on them and every error return.
\<close>

subsection \<open>Errors\<close>

text \<open>
  A Go \<^verbatim>\<open>error\<close>. \<open>Errno\<close> is an error coming from the operating system;
  \<open>Errorf p e s\<close> is \<^verbatim>\<open>fmt.Errorf\<close> with one \<^verbatim>\<open>%w\<close> verb: the text \<open>p\<close>, the wrapped
  error \<open>e\<close>, the text \<open>s\<close>. A \<^verbatim>\<open>nil\<close> error is \<open>None\<close> of \<open>error option\<close>.
\<close>

datatype error = Errno string | Errorf string error string

text \<open>\<^verbatim>\<open>err.Error()\<close>: the message.\<close>

fun Error_text :: "error \<Rightarrow> string" where
  "Error_text (Errno m) = m"
| "Error_text (Errorf p e s) = p @ Error_text e @ s"

text \<open>\<^verbatim>\<open>errors.Unwrap\<close>, repeated to the end of the chain: the underlying cause.\<close>

fun cause :: "error \<Rightarrow> error" where
  "cause (Errno m) = Errno m"
| "cause (Errorf p e s) = cause e"

subsection \<open>Settings\<close>

text \<open>
  Modelled from the spec: the type \<^verbatim>\<open>DnsSettings\<close> and its methods \<^verbatim>\<open>IsEmpty\<close> and
  \<^verbatim>\<open>Ip\<close> are declared outside the files at hand. The spec describes the settings as
  zero or more server addresses plus transport hints, and empty settings as the sentinel
  for no override. An address is kept as the text that \<^verbatim>\<open>net.IP.String()\<close> prints for
  it. \<^verbatim>\<open>Ip()\<close> returns a single \<^verbatim>\<open>net.IP\<close>, which the spec does not describe: it is
  taken to be the first address, and the nil IP (printed as \<^verbatim>\<open><nil>\<close>) when there is
  none.
\<close>

record DnsSettings =
  addresses :: "string list"
  hints :: string

definition DnsSettings_zero :: DnsSettings where
  "DnsSettings_zero = \<lparr>addresses = [], hints = []\<rparr>"

definition IsEmpty :: "DnsSettings \<Rightarrow> bool" where
  "IsEmpty d = (addresses d = [])"

definition Ip :: "DnsSettings \<Rightarrow> string option" where
  "Ip d = (case addresses d of [] \<Rightarrow> None | a # _ \<Rightarrow> Some a)"

definition IP_String :: "string option \<Rightarrow> string" where
  "IP_String ip = (case ip of None \<Rightarrow> ''<nil>'' | Some a \<Rightarrow> a)"

subsection \<open>The two paths and the state\<close>

datatype path = resolvFile | resolvBackupFile

text \<open>A file is its bytes. A rename moves the file whole.\<close>

record conf_file =
  content :: string

text \<open>
  A monitoring goroutine, as started at the end of \<^verbatim>\<open>rconf_implSetManual\<close>: the settings
  its closure holds, and where it stands in its loop.
  \<^item> \<open>Starting\<close>: it has not reached its first \<^verbatim>\<open>select\<close> yet (it creates the watcher
    and adds the live path).
  \<^item> \<open>Watching\<close>: it waits at the first \<^verbatim>\<open>select\<close>, for a change of the live path or
    for \<^verbatim>\<open>done\<close>.
  \<^item> \<open>Debouncing\<close>: it waits at the second \<^verbatim>\<open>select\<close>, for the two seconds to pass
    or for \<^verbatim>\<open>done\<close>.
  \<^item> \<open>Reasserting\<close>: the two seconds have passed and it runs \<^verbatim>\<open>saveNewConfig\<close>.
  Only at the two \<^verbatim>\<open>select\<close> statements does it receive from \<^verbatim>\<open>done\<close>.
\<close>

datatype phase = Starting | Watching | Debouncing | Reasserting

record goroutine =
  phase :: phase
  settings :: DnsSettings

definition waiting :: "goroutine \<Rightarrow> bool" where
  "waiting g = (phase g = Watching \<or> phase g = Debouncing)"

text \<open>
  The state that the functions share: the two paths and the monitoring goroutines that are
  alive. The goroutines that wait stand in the list in the order in which they began to
  wait, which is the order in which the channel \<^verbatim>\<open>done\<close> serves them. \<open>renames\<close> and
  \<open>snap_probes\<close> are ghost counters of the successful \<^verbatim>\<open>os.Rename\<close> calls and of the
  calls into the snap diagnostics of package platform.
\<close>

record state =
  live :: "conf_file option"
  backup :: "conf_file option"
  monitors :: "goroutine list"
  renames :: nat
  snap_probes :: nat

text \<open>
  What the environment answers during one call of a public function or one step of a
  goroutine: the program name, the failure (if any) of each system call, whether the
  watcher can be set up, and the snap diagnostics. \<open>write_err\<close> carries the number of
  bytes that reached the file before the failure. \<^verbatim>\<open>os.Stat\<close> is taken to fail exactly
  when the path does not exist. An error of the operating system is kept as its errno: the
  layer that package os puts around it (operation and path, as in
  \<^verbatim>\<open>stat /etc/resolv.conf: no such file or directory\<close>) is left out.
\<close>

record env =
  argv0 :: string
  rename_err :: "error option"
  open_err :: "error option"
  write_err :: "(nat \<times> error) option"
  sync_err :: "error option"
  watcher_fails :: bool
  snap_envs :: bool
  snap_allowed :: bool
  snap_msg :: string

definition file_at :: "path \<Rightarrow> state \<Rightarrow> conf_file option" where
  "file_at p st = (case p of resolvFile \<Rightarrow> live st | resolvBackupFile \<Rightarrow> backup st)"

definition put_file :: "path \<Rightarrow> conf_file option \<Rightarrow> state \<Rightarrow> state" where
  "put_file p f st =
     (case p of resolvFile \<Rightarrow> st\<lparr>live := f\<rparr> | resolvBackupFile \<Rightarrow> st\<lparr>backup := f\<rparr>)"

definition ENOENT :: error where
  "ENOENT = Errno ''no such file or directory''"

definition os_Stat :: "path \<Rightarrow> state \<Rightarrow> error option" where
  "os_Stat p st = (case file_at p st of None \<Rightarrow> Some ENOENT | Some f \<Rightarrow> None)"

definition os_Rename :: "env \<Rightarrow> path \<Rightarrow> path \<Rightarrow> state \<Rightarrow> error option \<times> state" where
  "os_Rename e src dst st =
     (case rename_err e of
        Some err \<Rightarrow> (Some err, st)
      | None \<Rightarrow>
          (case file_at src st of
             None \<Rightarrow> (Some ENOENT, st)
           | Some f \<Rightarrow>
               (None, (put_file src None (put_file dst (Some f) st))
                        \<lparr>renames := Suc (renames st)\<rparr>)))"

subsection \<open>Backup store\<close>

definition rconf_isBackupExists :: "state \<Rightarrow> bool" where
  "rconf_isBackupExists st = (os_Stat resolvBackupFile st = None)"

definition rconf_createBackup :: "env \<Rightarrow> bool \<Rightarrow> state \<Rightarrow> (bool \<times> error option) \<times> state" where
  "rconf_createBackup e isOverwriteIfExists st =
     (case os_Stat resolvFile st of
        Some err \<Rightarrow>
          ((False, Some (Errorf
              ''failed to backup DNS configuration (file availability check failed): '' err [])), st)
      | None \<Rightarrow>
          if os_Stat resolvBackupFile st = None \<and> \<not> isOverwriteIfExists
          then ((False, None), st)
          else (case os_Rename e resolvFile resolvBackupFile st of
                  (Some err, st') \<Rightarrow>
                    ((False, Some (Errorf ''failed to backup DNS configuration: '' err [])), st')
                | (None, st') \<Rightarrow> ((True, None), st')))"

definition rconf_restoreBackup :: "env \<Rightarrow> state \<Rightarrow> error option \<times> state" where
  "rconf_restoreBackup e st =
     (case os_Stat resolvBackupFile st of
        Some err \<Rightarrow> (None, st)
      | None \<Rightarrow>
          (case os_Rename e resolvBackupFile resolvFile st of
             (Some err, st') \<Rightarrow>
               (Some (Errorf ''failed to restore DNS configuration: '' err []), st')
           | (None, st') \<Rightarrow> (None, st')))"

subsection \<open>Controller\<close>

text \<open>
  The send on \<^verbatim>\<open>done\<close> does not block: the goroutine that has waited longest at a
  \<^verbatim>\<open>select\<close> receives it and returns; when no goroutine waits, the request is dropped.
\<close>

fun stop_first :: "goroutine list \<Rightarrow> goroutine list" where
  "stop_first [] = []"
| "stop_first (g # gs) = (if waiting g then gs else g # stop_first gs)"

definition rconf_stopDNSChangeMonitoring :: "state \<Rightarrow> state" where
  "rconf_stopDNSChangeMonitoring st = st\<lparr>monitors := stop_first (monitors st)\<rparr>"

definition rconf_implDeleteManual :: "env \<Rightarrow> state \<Rightarrow> error option \<times> state" where
  "rconf_implDeleteManual e st = rconf_restoreBackup e (rconf_stopDNSChangeMonitoring st)"

definition rconf_implInitialize :: "env \<Rightarrow> state \<Rightarrow> error option \<times> state" where
  "rconf_implInitialize e st =
     (case os_Stat resolvBackupFile st of
        Some err \<Rightarrow> (None, st)
      | None \<Rightarrow>
          (case rconf_implDeleteManual e st of
             (Some err, st') \<Rightarrow> (Some (Errorf ''failed to restore DNS to default: '' err []), st')
           | (None, st') \<Rightarrow> (None, st')))"

definition rconf_implPause :: "env \<Rightarrow> state \<Rightarrow> error option \<times> state" where
  "rconf_implPause e st =
     (if \<not> rconf_isBackupExists st then (None, st)
      else rconf_restoreBackup e (rconf_stopDNSChangeMonitoring st))"

definition rconf_implResume :: "env \<Rightarrow> state \<Rightarrow> error option \<times> state" where
  "rconf_implResume e st = (None, st)"

text \<open>The closure \<^verbatim>\<open>createBackupIfNotExists\<close> of \<^verbatim>\<open>rconf_implSetManual\<close>.\<close>

definition createBackupIfNotExists :: "env \<Rightarrow> state \<Rightarrow> (bool \<times> error option) \<times> state" where
  "createBackupIfNotExists e st = rconf_createBackup e False st"

text \<open>The text that \<^verbatim>\<open>saveNewConfig\<close> formats: a comment, an empty line, one nameserver line.\<close>

definition resolv_text :: "string \<Rightarrow> DnsSettings \<Rightarrow> string" where
  "resolv_text prog d =
     ''# resolv.conf autogenerated by '' @ [CHR 0x27] @ prog @ [CHR 0x27] @ ''\<newline>\<newline>''
       @ ''nameserver '' @ IP_String (Ip d) @ ''\<newline>''"

text \<open>
  The closure \<^verbatim>\<open>saveNewConfig\<close>. It drops the result of the backup step. Opening with
  \<^verbatim>\<open>O_CREATE|O_WRONLY|O_TRUNC\<close> leaves an empty file at the live path; a failed write
  leaves the bytes that were written; a failed sync leaves all of them.
\<close>

definition saveNewConfig :: "env \<Rightarrow> DnsSettings \<Rightarrow> state \<Rightarrow> error option \<times> state" where
  "saveNewConfig e dnsCfg st =
     (let st1 = snd (createBackupIfNotExists e st) in
      case open_err e of
        Some err \<Rightarrow> (Some (Errorf ''failed to update DNS configuration ('' err '')''), st1)
      | None \<Rightarrow>
          (let txt = resolv_text (argv0 e) dnsCfg in
           case write_err e of
             Some (n, err) \<Rightarrow>
               (Some (Errorf ''failed to change DNS configuration: '' err []),
                st1\<lparr>live := Some \<lparr>content = take n txt\<rparr>\<rparr>)
           | None \<Rightarrow>
               (let st2 = st1\<lparr>live := Some \<lparr>content = txt\<rparr>\<rparr> in
                case sync_err e of
                  Some err \<Rightarrow>
                    (Some (Errorf ''failed to change DNS configuration: '' err []), st2)
                | None \<Rightarrow> (None, st2))))"

text \<open>
  The error path of the backup step in \<^verbatim>\<open>rconf_implSetManual\<close>: the snap environment is
  read, and inside a snap the check whether the snap may manage the resolver file is made.
  The error of the check itself is only logged.
\<close>

definition backup_failed :: "env \<Rightarrow> error \<Rightarrow> state \<Rightarrow> (DnsSettings \<times> error option) \<times> state" where
  "backup_failed e err st =
     (let st1 = st\<lparr>snap_probes := Suc (snap_probes st)\<rparr> in
      if snap_envs e then
        (let st2 = st1\<lparr>snap_probes := Suc (snap_probes st1)\<rparr> in
         if \<not> snap_allowed e \<and> length (snap_msg e) > 0
         then ((DnsSettings_zero, Some (Errorf [] err (''\<newline>\<newline>'' @ snap_msg e))), st2)
         else ((DnsSettings_zero, Some err), st2))
      else ((DnsSettings_zero, Some err), st1))"

text \<open>The \<^verbatim>\<open>go\<close> statement at the end of \<^verbatim>\<open>rconf_implSetManual\<close>: one more goroutine.\<close>

definition start_monitoring :: "DnsSettings \<Rightarrow> state \<Rightarrow> state" where
  "start_monitoring dnsCfg st =
     st\<lparr>monitors := monitors st @ [\<lparr>phase = Starting, settings = dnsCfg\<rparr>]\<rparr>"

definition rconf_implSetManual ::
    "env \<Rightarrow> DnsSettings \<Rightarrow> state \<Rightarrow> (DnsSettings \<times> error option) \<times> state" where
  "rconf_implSetManual e dnsCfg st =
     (let st0 = rconf_stopDNSChangeMonitoring st in
      if IsEmpty dnsCfg then
        (case rconf_implDeleteManual e st0 of (r, st') \<Rightarrow> ((DnsSettings_zero, r), st'))
      else
        (case createBackupIfNotExists e st0 of
           ((created, Some err), st1) \<Rightarrow> backup_failed e err st1
         | ((created, None), st1) \<Rightarrow>
             (case saveNewConfig e dnsCfg st1 of
                (Some err, st2) \<Rightarrow> ((DnsSettings_zero, Some err), st2)
              | (None, st2) \<Rightarrow> ((dnsCfg, None), start_monitoring dnsCfg st2))))"

subsection \<open>The monitoring goroutine\<close>

text \<open>
  \<^verbatim>\<open>fsnotify.NewWatcher\<close> or \<^verbatim>\<open>w.Add(resolvFile)\<close> fails: the environment says so, or
  there is no file at the live path to watch.
\<close>

definition watch_fails :: "env \<Rightarrow> state \<Rightarrow> bool" where
  "watch_fails e st = (watcher_fails e \<or> live st = None)"

text \<open>
  One step of the goroutine at position \<open>i\<close>, up to its next stop in the loop.
  \<^item> \<open>Starting\<close>: it sets the watch up and waits at the first \<^verbatim>\<open>select\<close>, or returns when
    that fails.
  \<^item> \<open>Watching\<close>: an event of the live path arrives; it removes the watch and waits at the
    second \<^verbatim>\<open>select\<close>.
  \<^item> \<open>Debouncing\<close>: the two seconds pass.
  \<^item> \<open>Reasserting\<close>: it runs \<^verbatim>\<open>saveNewConfig\<close> with its settings (an error is only
    logged), adds the watch again and waits at the first \<^verbatim>\<open>select\<close>, or returns when the
    watch fails.
  A goroutine that begins to wait goes to the end of the list. A step is taken between two
  calls of the public functions, not inside one.
\<close>

definition monitor_step :: "env \<Rightarrow> nat \<Rightarrow> state \<Rightarrow> state" where
  "monitor_step e i st =
     (if length (monitors st) \<le> i then st
      else
        (let g = monitors st ! i;
             others = take i (monitors st) @ drop (Suc i) (monitors st)
         in case phase g of
              Starting \<Rightarrow>
                if watch_fails e st then st\<lparr>monitors := others\<rparr>
                else st\<lparr>monitors := others @ [g\<lparr>phase := Watching\<rparr>]\<rparr>
            | Watching \<Rightarrow> st\<lparr>monitors := others @ [g\<lparr>phase := Debouncing\<rparr>]\<rparr>
            | Debouncing \<Rightarrow> st\<lparr>monitors := others @ [g\<lparr>phase := Reasserting\<rparr>]\<rparr>
            | Reasserting \<Rightarrow>
                (let st1 = snd (saveNewConfig e (settings g) st) in
                 if watch_fails e st1 then st1\<lparr>monitors := others\<rparr>
                 else st1\<lparr>monitors := others @ [g\<lparr>phase := Watching\<rparr>]\<rparr>)))"

subsection \<open>The public operations as one step function\<close>

text \<open>
  The five operations that the connection lifecycle calls. The interface address that
  \<^verbatim>\<open>Pause\<close>, \<^verbatim>\<open>Resume\<close>, \<^verbatim>\<open>SetManual\<close> and \<^verbatim>\<open>DeleteManual\<close> take is not used on
  Linux and is left out.
\<close>

datatype operation = Initialize | SetManual DnsSettings | DeleteManual | Pause | Resume

fun run :: "env \<Rightarrow> operation \<Rightarrow> state \<Rightarrow> error option \<times> state" where
  "run e Initialize st = rconf_implInitialize e st"
| "run e (SetManual d) st = (case rconf_implSetManual e d st of ((r, err), st') \<Rightarrow> (err, st'))"
| "run e DeleteManual st = rconf_implDeleteManual e st"
| "run e Pause st = rconf_implPause e st"
| "run e Resume st = rconf_implResume e st"

text \<open>Every goroutine that is alive waits at a \<^verbatim>\<open>select\<close>: a stop request reaches one.\<close>

definition all_waiting :: "state \<Rightarrow> bool" where
  "all_waiting st = list_all waiting (monitors st)"

text \<open>
  What happens within a session: a call of \<^verbatim>\<open>SetManual\<close>, or one step of the goroutine
  at a position, each with its own environment.
\<close>

datatype action = Call env DnsSettings | Step env nat

text \<open>
  An orderly run: every call of \<^verbatim>\<open>SetManual\<close> is made while the goroutines wait at a
  \<^verbatim>\<open>select\<close>, and returns no error. The goroutines take their steps between the calls.
  The result is \<open>None\<close> when the run is not orderly.
\<close>

fun orderly_run :: "action list \<Rightarrow> state \<Rightarrow> state option" where
  "orderly_run [] st = Some st"
| "orderly_run (Call e d # acts) st =
     (if \<not> all_waiting st then None
      else (case rconf_implSetManual e d st of
              ((r, Some err), st') \<Rightarrow> None
            | ((r, None), st') \<Rightarrow> orderly_run acts st'))"
| "orderly_run (Step e i # acts) st = orderly_run acts (monitor_step e i st)"

subsection \<open>Predicates of the specification\<close>

text \<open>The header comment and one nameserver line.\<close>

definition resolv_header :: "string \<Rightarrow> string" where
  "resolv_header prog =
     ''# resolv.conf autogenerated by '' @ [CHR 0x27] @ prog @ [CHR 0x27] @ ''\<newline>\<newline>''"

definition nameserver_line :: "string \<Rightarrow> string" where
  "nameserver_line a = ''nameserver '' @ a @ ''\<newline>''"

text \<open>
  The resolver file in the words of the specification: the header comment, then one
  nameserver line per address of the settings, in the order supplied.
\<close>

definition spec_resolv_text :: "string \<Rightarrow> DnsSettings \<Rightarrow> string" where
  "spec_resolv_text prog d = resolv_header prog @ concat (map nameserver_line (addresses d))"

text \<open>
  Override content, read off the bytes: the header comment of the program followed by one
  nameserver line, whatever the address. An empty or truncated file is not override content.
\<close>

definition override_text :: "string \<Rightarrow> string \<Rightarrow> bool" where
  "override_text prog txt =
     (let h = resolv_header prog @ ''nameserver ''
      in take (length h) txt = h \<and> length h < length txt \<and> last txt = CHR 0x0A)"

text \<open>The live path holds override content: there is a file and its bytes are override content.\<close>

definition holds_override :: "string \<Rightarrow> conf_file option \<Rightarrow> bool" where
  "holds_override prog f = (case f of None \<Rightarrow> False | Some c \<Rightarrow> override_text prog (content c))"

text \<open>The invariant of the data model: the Backup exists iff the live path holds override content.\<close>

definition backup_invariant :: "string \<Rightarrow> state \<Rightarrow> bool" where
  "backup_invariant prog st = ((backup st \<noteq> None) = holds_override prog (live st))"

text \<open>The Backup, when there is one, is not override content: it is a copy of the original.\<close>

definition backup_is_original :: "string \<Rightarrow> state \<Rightarrow> bool" where
  "backup_is_original prog st =
     (case backup st of None \<Rightarrow> True | Some b \<Rightarrow> \<not> override_text prog (content b))"

text \<open>
  A session that started with \<open>L\<close> at the live path, in an orderly run: either nothing is
  backed up, \<open>L\<close> is still there and no goroutine is alive, or \<open>L\<close> is a file, the Backup
  holds it and at most one goroutine is alive.
\<close>

definition in_session :: "conf_file option \<Rightarrow> state \<Rightarrow> bool" where
  "in_session L st =
     ((backup st = None \<and> live st = L \<and> monitors st = [])
      \<or> (backup st = L \<and> L \<noteq> None \<and> length (monitors st) \<le> 1))"

text \<open>The invariant together with the Backup being a copy of the original.\<close>

definition session_consistent :: "string \<Rightarrow> state \<Rightarrow> bool" where
  "session_consistent prog st = (backup_invariant prog st \<and> backup_is_original prog st)"

subsection \<open>Concrete environments, states and settings\<close>

definition env_ok :: env where
  "env_ok = \<lparr>argv0 = ''/usr/bin/ivpn-service'', rename_err = None, open_err = None,
     write_err = None, sync_err = None, watcher_fails = False, snap_envs = False,
     snap_allowed = True, snap_msg = []\<rparr>"

definition env_rename_fails :: env where
  "env_rename_fails = env_ok\<lparr>rename_err := Some (Errno ''operation not permitted'')\<rparr>"

definition env_open_fails :: env where
  "env_open_fails = env_ok\<lparr>open_err := Some (Errno ''no space left on device'')\<rparr>"

definition env_write_fails :: env where
  "env_write_fails = env_ok\<lparr>write_err := Some (10, Errno ''no space left on device'')\<rparr>"

definition env_snap_denied :: env where
  "env_snap_denied = env_ok\<lparr>rename_err := Some (Errno ''permission denied''),
     snap_envs := True, snap_allowed := False,
     snap_msg := ''connect the snap interface network-control''\<rparr>"

definition original_conf :: conf_file where
  "original_conf = \<lparr>content = ''nameserver 8.8.8.8\<newline>''\<rparr>"

definition dns_one :: DnsSettings where
  "dns_one = \<lparr>addresses = [''10.0.0.1''], hints = []\<rparr>"

definition dns_two :: DnsSettings where
  "dns_two = \<lparr>addresses = [''10.0.0.1'', ''10.0.0.2''], hints = []\<rparr>"

text \<open>Before a session: the original file, no Backup.\<close>

definition st_fresh :: state where
  "st_fresh = \<lparr>live = Some original_conf, backup = None, monitors = [], renames = 0,
     snap_probes = 0\<rparr>"

text \<open>Within a session: what \<^verbatim>\<open>SetManual\<close> with \<open>dns_one\<close> makes of \<open>st_fresh\<close>.\<close>

definition st_override :: state where
  "st_override =
     \<lparr>live = Some \<lparr>content = resolv_text (argv0 env_ok) dns_one\<rparr>,
      backup = Some original_conf, monitors = [\<lparr>phase = Starting, settings = dns_one\<rparr>],
      renames = 1, snap_probes = 0\<rparr>"

section \<open>Properties\<close>

subsection \<open>The system calls and the backup store, by cases\<close>

lemma os_Stat_live [simp]:
  "os_Stat resolvFile st = (case live st of None \<Rightarrow> Some ENOENT | Some f \<Rightarrow> None)"
  by (simp add: os_Stat_def file_at_def)

lemma os_Stat_backup [simp]:
  "os_Stat resolvBackupFile st = (case backup st of None \<Rightarrow> Some ENOENT | Some f \<Rightarrow> None)"
  by (simp add: os_Stat_def file_at_def)

lemma createBackup_no_source:
  "live st = None \<Longrightarrow>
   rconf_createBackup e ow st =
     ((False, Some (Errorf
        ''failed to backup DNS configuration (file availability check failed): '' ENOENT [])), st)"
  by (simp add: rconf_createBackup_def)

lemma createBackup_kept:
  "live st = Some f \<Longrightarrow> backup st = Some b \<Longrightarrow>
   rconf_createBackup e False st = ((False, None), st)"
  by (simp add: rconf_createBackup_def)

lemma createBackup_rename_failed:
  "live st = Some f \<Longrightarrow> backup st = None \<or> ow \<Longrightarrow> rename_err e = Some err \<Longrightarrow>
   rconf_createBackup e ow st =
     ((False, Some (Errorf ''failed to backup DNS configuration: '' err [])), st)"
  by (auto simp add: rconf_createBackup_def os_Rename_def split: option.splits)

lemma createBackup_moved:
  "live st = Some f \<Longrightarrow> backup st = None \<or> ow \<Longrightarrow> rename_err e = None \<Longrightarrow>
   rconf_createBackup e ow st =
     ((True, None), st\<lparr>live := None, backup := Some f, renames := Suc (renames st)\<rparr>)"
  by (auto simp add: rconf_createBackup_def os_Rename_def file_at_def put_file_def
      split: option.splits)

lemma restoreBackup_nothing:
  "backup st = None \<Longrightarrow> rconf_restoreBackup e st = (None, st)"
  by (simp add: rconf_restoreBackup_def)

lemma restoreBackup_failed:
  "backup st = Some b \<Longrightarrow> rename_err e = Some err \<Longrightarrow>
   rconf_restoreBackup e st =
     (Some (Errorf ''failed to restore DNS configuration: '' err []), st)"
  by (simp add: rconf_restoreBackup_def os_Rename_def)

lemma restoreBackup_moved:
  "backup st = Some b \<Longrightarrow> rename_err e = None \<Longrightarrow>
   rconf_restoreBackup e st =
     (None, st\<lparr>live := Some b, backup := None, renames := Suc (renames st)\<rparr>)"
  by (simp add: rconf_restoreBackup_def os_Rename_def file_at_def put_file_def)

subsection \<open>Restoring twice\<close>

text \<open>
  Claim C5, as the code has it. From any state: when the first \<^verbatim>\<open>restoreBackup\<close> returns
  nil (it has restored the Backup, or there was none), a second call in a row returns nil and
  changes nothing, so that two calls leave the state that one call leaves. When the first
  call returns an error, a Backup exists and the rename has failed: the call has changed
  nothing, and the second call does what a first call does from that state (it returns the
  error again when its rename fails too). Without a Backup the call returns nil and changes
  nothing.
\<close>

theorem restoreBackup_twice:
  "(fst (rconf_restoreBackup e st) = None \<longrightarrow>
        rconf_restoreBackup e' (snd (rconf_restoreBackup e st))
          = (None, snd (rconf_restoreBackup e st)))
   \<and> (fst (rconf_restoreBackup e st) \<noteq> None \<longrightarrow>
        backup st \<noteq> None \<and> rename_err e \<noteq> None \<and> snd (rconf_restoreBackup e st) = st
        \<and> rconf_restoreBackup e' (snd (rconf_restoreBackup e st)) = rconf_restoreBackup e' st)
   \<and> (backup st = None \<longrightarrow> rconf_restoreBackup e st = (None, st))"
proof (cases "backup st")
  case None
  then show ?thesis by (simp add: restoreBackup_nothing)
next
  case (Some b)
  show ?thesis
  proof (cases "rename_err e")
    case None
    with Some show ?thesis by (simp add: restoreBackup_moved restoreBackup_nothing)
  next
    case (Some err)
    with \<open>backup st = Some b\<close> show ?thesis by (simp add: restoreBackup_failed)
  qed
qed

theorem restoreBackup_twice_witness:
  "fst (rconf_restoreBackup env_ok st_override) = None
   \<and> rconf_restoreBackup env_ok (snd (rconf_restoreBackup env_ok st_override))
       = (None, snd (rconf_restoreBackup env_ok st_override))
   \<and> fst (rconf_restoreBackup env_rename_fails st_override) \<noteq> None
   \<and> snd (rconf_restoreBackup env_rename_fails st_override) = st_override
   \<and> rconf_restoreBackup env_ok (snd (rconf_restoreBackup env_rename_fails st_override))
       = rconf_restoreBackup env_ok st_override
   \<and> backup st_fresh = None \<and> rconf_restoreBackup env_ok st_fresh = (None, st_fresh)"
  using restoreBackup_twice [where e = env_ok and st = st_override and e' = env_ok]
    restoreBackup_twice [where e = env_rename_fails and st = st_override and e' = env_ok]
    restoreBackup_twice [where e = env_ok and st = st_fresh]
  by (simp add: restoreBackup_moved restoreBackup_nothing restoreBackup_failed st_override_def
      st_fresh_def env_ok_def env_rename_fails_def)

text \<open>
  With a Backup and a rename that keeps failing, the second of two calls returns the error,
  not nil.
\<close>

theorem restoreBackup_second_call_counterexample:
  "backup st_override \<noteq> None
   \<and> fst (rconf_restoreBackup env_rename_fails
        (snd (rconf_restoreBackup env_rename_fails st_override)))
       = Some (Errorf ''failed to restore DNS configuration: ''
           (Errno ''operation not permitted'') [])"
  by (simp add: restoreBackup_failed st_override_def env_ok_def env_rename_fails_def)

subsection \<open>Stopping the monitoring\<close>

lemma stop_fields [simp]:
  "live (rconf_stopDNSChangeMonitoring st) = live st"
  "backup (rconf_stopDNSChangeMonitoring st) = backup st"
  "renames (rconf_stopDNSChangeMonitoring st) = renames st"
  "snap_probes (rconf_stopDNSChangeMonitoring st) = snap_probes st"
  "monitors (rconf_stopDNSChangeMonitoring st) = stop_first (monitors st)"
  by (simp_all add: rconf_stopDNSChangeMonitoring_def)

lemma stop_first_none_waiting:
  "filter waiting gs = [] \<Longrightarrow> stop_first gs = gs"
  by (induction gs) (auto split: if_splits)

lemma stop_first_one_waiting:
  "length (filter waiting gs) \<le> 1 \<Longrightarrow> stop_first (stop_first gs) = stop_first gs"
  by (induction gs) (auto simp add: stop_first_none_waiting split: if_splits)

lemma restoreBackup_files_only:
  "fst (rconf_restoreBackup e (st\<lparr>monitors := ms\<rparr>)) = fst (rconf_restoreBackup e st)
   \<and> snd (rconf_restoreBackup e (st\<lparr>monitors := ms\<rparr>))
       = (snd (rconf_restoreBackup e st))\<lparr>monitors := ms\<rparr>"
  by (cases "backup st"; cases "rename_err e")
     (simp_all add: restoreBackup_nothing restoreBackup_moved restoreBackup_failed)

subsection \<open>Backing up twice\<close>

text \<open>
  Claim C4, as the code has it. Let the live resolver file exist. When there is no Backup and
  the rename succeeds, the first \<^verbatim>\<open>createBackup(false)\<close> moves the live file to the
  Backup and returns \<^verbatim>\<open>(true, nil)\<close>; the second call finds no live file any more:
  it returns \<^verbatim>\<open>false\<close> with the file availability error and changes nothing, so one
  rename is made and the Backup stays what the first call made it. When the Backup exists
  already, both calls return \<^verbatim>\<open>(false, nil)\<close> and change nothing.
\<close>

theorem createBackup_twice:
  assumes "live st = Some f"
  shows "(backup st = None \<and> rename_err e = None \<longrightarrow>
            rconf_createBackup e False st
              = ((True, None), st\<lparr>live := None, backup := Some f, renames := Suc (renames st)\<rparr>)
          \<and> rconf_createBackup e' False (snd (rconf_createBackup e False st))
              = ((False, Some (Errorf
                   ''failed to backup DNS configuration (file availability check failed): ''
                   ENOENT [])), snd (rconf_createBackup e False st)))
       \<and> (backup st \<noteq> None \<longrightarrow>
            rconf_createBackup e False st = ((False, None), st)
          \<and> rconf_createBackup e' False (snd (rconf_createBackup e False st)) = ((False, None), st))"
  using assms by (auto simp add: createBackup_moved createBackup_kept createBackup_no_source)

theorem createBackup_twice_witness:
  "live st_fresh = Some original_conf \<and> backup st_fresh = None \<and> rename_err env_ok = None
   \<and> fst (rconf_createBackup env_ok False st_fresh) = (True, None)
   \<and> fst (rconf_createBackup env_ok False (snd (rconf_createBackup env_ok False st_fresh)))
       = (False, Some (Errorf
            ''failed to backup DNS configuration (file availability check failed): '' ENOENT []))
   \<and> backup (snd (rconf_createBackup env_ok False (snd (rconf_createBackup env_ok False st_fresh))))
       = Some original_conf
   \<and> renames (snd (rconf_createBackup env_ok False (snd (rconf_createBackup env_ok False st_fresh))))
       = Suc (renames st_fresh)
   \<and> backup st_override \<noteq> None
   \<and> rconf_createBackup env_ok False (snd (rconf_createBackup env_ok False st_override))
       = ((False, None), st_override)"
  using createBackup_twice [where st = st_fresh and f = original_conf and e = env_ok and e' = env_ok]
    createBackup_twice [where st = st_override and e = env_ok and e' = env_ok]
  by (simp add: st_fresh_def st_override_def env_ok_def createBackup_moved createBackup_no_source
      createBackup_kept)

text \<open>
  From the fresh state the second of two calls does not return \<^verbatim>\<open>(false, nil)\<close>.
\<close>

theorem createBackup_twice_counterexample:
  "live st_fresh \<noteq> None \<and>
   fst (rconf_createBackup env_ok False (snd (rconf_createBackup env_ok False st_fresh)))
     \<noteq> (False, None)"
  by (simp add: st_fresh_def env_ok_def createBackup_moved createBackup_no_source)

subsection \<open>Initialize\<close>

text \<open>
  Claim C6. Without a Backup, \<^verbatim>\<open>Initialize\<close> returns nil and leaves the state
  untouched. With a Backup \<open>b\<close>, a successful restore puts \<open>b\<close> at the live path and
  removes the Backup; a failed restore is returned wrapped in
  \<^verbatim>\<open>failed to restore DNS to default\<close>, the underlying cause is still the cause of
  the returned error, and both paths stay as they were.
\<close>

theorem Initialize_restores:
  "(backup st = None \<longrightarrow> rconf_implInitialize e st = (None, st))
   \<and> (backup st = Some b \<and> rename_err e = None \<longrightarrow>
        fst (rconf_implInitialize e st) = None
        \<and> live (snd (rconf_implInitialize e st)) = Some b
        \<and> backup (snd (rconf_implInitialize e st)) = None)
   \<and> (backup st = Some b \<and> rconf_implDeleteManual e st = (Some err, st') \<longrightarrow>
        rconf_implInitialize e st = (Some (Errorf ''failed to restore DNS to default: '' err []), st')
        \<and> cause (Errorf ''failed to restore DNS to default: '' err []) = cause err)
   \<and> (backup st = Some b \<and> rename_err e = Some errno \<longrightarrow>
        fst (rconf_implInitialize e st)
          = Some (Errorf ''failed to restore DNS to default: ''
              (Errorf ''failed to restore DNS configuration: '' errno []) [])
        \<and> cause (Errorf ''failed to restore DNS to default: ''
              (Errorf ''failed to restore DNS configuration: '' errno []) []) = cause errno
        \<and> live (snd (rconf_implInitialize e st)) = live st
        \<and> backup (snd (rconf_implInitialize e st)) = backup st)"
  by (auto simp add: rconf_implInitialize_def rconf_implDeleteManual_def restoreBackup_moved
      restoreBackup_failed restoreBackup_nothing)

theorem Initialize_restores_witness:
  "backup st_fresh = None \<and> rconf_implInitialize env_ok st_fresh = (None, st_fresh)
   \<and> backup st_override = Some original_conf \<and> rename_err env_ok = None
   \<and> fst (rconf_implInitialize env_ok st_override) = None
   \<and> live (snd (rconf_implInitialize env_ok st_override)) = Some original_conf
   \<and> backup (snd (rconf_implInitialize env_ok st_override)) = None
   \<and> rename_err env_rename_fails = Some (Errno ''operation not permitted'')
   \<and> fst (rconf_implInitialize env_rename_fails st_override)
       = Some (Errorf ''failed to restore DNS to default: ''
           (Errorf ''failed to restore DNS configuration: '' (Errno ''operation not permitted'') []) [])
   \<and> backup (snd (rconf_implInitialize env_rename_fails st_override)) = backup st_override"
  using Initialize_restores [where st = st_fresh and e = env_ok]
    Initialize_restores [where st = st_override and b = original_conf and e = env_ok]
    Initialize_restores [where st = st_override and b = original_conf and e = env_rename_fails
      and errno = "Errno ''operation not permitted''"]
  by (simp add: st_fresh_def st_override_def env_ok_def env_rename_fails_def)

subsection \<open>Empty settings\<close>

text \<open>
  Claim C7. \<^verbatim>\<open>SetManual\<close> with empty settings is \<^verbatim>\<open>DeleteManual\<close>: in every state
  it returns the same error, together with the zero value of \<^verbatim>\<open>DnsSettings\<close>, and leaves
  the same files (and the same counters). It sends one stop request more than
  \<^verbatim>\<open>DeleteManual\<close>, so its state is the state of \<^verbatim>\<open>DeleteManual\<close> after one more stop
  request; with at most one goroutine waiting, that is the state of \<^verbatim>\<open>DeleteManual\<close>.
\<close>

theorem SetManual_empty_is_DeleteManual:
  "IsEmpty d \<Longrightarrow>
   rconf_implSetManual e d st
     = ((DnsSettings_zero, fst (rconf_implDeleteManual e st)),
        snd (rconf_implDeleteManual e (rconf_stopDNSChangeMonitoring st)))
   \<and> live (snd (rconf_implSetManual e d st)) = live (snd (rconf_implDeleteManual e st))
   \<and> backup (snd (rconf_implSetManual e d st)) = backup (snd (rconf_implDeleteManual e st))
   \<and> renames (snd (rconf_implSetManual e d st)) = renames (snd (rconf_implDeleteManual e st))
   \<and> snap_probes (snd (rconf_implSetManual e d st))
       = snap_probes (snd (rconf_implDeleteManual e st))
   \<and> (length (filter waiting (monitors st)) \<le> 1 \<longrightarrow>
        rconf_implSetManual e d st
          = ((DnsSettings_zero, fst (rconf_implDeleteManual e st)),
             snd (rconf_implDeleteManual e st)))"
proof -
  assume empty: "IsEmpty d"
  let ?s1 = "rconf_stopDNSChangeMonitoring st"
  let ?s2 = "rconf_stopDNSChangeMonitoring ?s1"
  have s1: "?s1 = st\<lparr>monitors := stop_first (monitors st)\<rparr>"
    and s2: "?s2 = st\<lparr>monitors := stop_first (stop_first (monitors st))\<rparr>"
    by (simp_all add: rconf_stopDNSChangeMonitoring_def)
  have sm: "rconf_implSetManual e d st
      = ((DnsSettings_zero, fst (rconf_restoreBackup e ?s2)), snd (rconf_restoreBackup e ?s2))"
    using empty by (simp add: rconf_implSetManual_def rconf_implDeleteManual_def split: prod.splits)
  have r1: "fst (rconf_restoreBackup e ?s1) = fst (rconf_restoreBackup e st)"
    and r2: "fst (rconf_restoreBackup e ?s2) = fst (rconf_restoreBackup e st)"
    and t1: "snd (rconf_restoreBackup e ?s1)
        = (snd (rconf_restoreBackup e st))\<lparr>monitors := stop_first (monitors st)\<rparr>"
    and t2: "snd (rconf_restoreBackup e ?s2)
        = (snd (rconf_restoreBackup e st))\<lparr>monitors := stop_first (stop_first (monitors st))\<rparr>"
    by (simp_all add: rconf_stopDNSChangeMonitoring_def restoreBackup_files_only)
  have same: "?s2 = ?s1" if "length (filter waiting (monitors st)) \<le> 1"
    using stop_first_one_waiting [OF that] by (simp add: s1 s2)
  show ?thesis
    using same by (auto simp add: sm rconf_implDeleteManual_def r1 r2 t1 t2)
qed

theorem SetManual_empty_is_DeleteManual_witness:
  "IsEmpty DnsSettings_zero
   \<and> rconf_implSetManual env_ok DnsSettings_zero st_override
       = ((DnsSettings_zero, fst (rconf_implDeleteManual env_ok st_override)),
          snd (rconf_implDeleteManual env_ok st_override))
   \<and> fst (rconf_implDeleteManual env_ok st_override) = None
   \<and> live (snd (rconf_implDeleteManual env_ok st_override)) = Some original_conf
   \<and> live (snd (rconf_implSetManual env_ok DnsSettings_zero st_override)) = Some original_conf
   \<and> backup (snd (rconf_implSetManual env_ok DnsSettings_zero st_override)) = None"
  using SetManual_empty_is_DeleteManual [where d = DnsSettings_zero and e = env_ok and st = st_override]
  by (simp add: IsEmpty_def DnsSettings_zero_def rconf_implDeleteManual_def restoreBackup_moved
      st_override_def env_ok_def waiting_def)

subsection \<open>Pause\<close>



subsection \<open>SetManual, by cases\<close>

lemma saveNewConfig_ok_live:
  "saveNewConfig e d st = (None, st') \<Longrightarrow>
   live st' = Some \<lparr>content = resolv_text (argv0 e) d\<rparr>"
  by (auto simp add: saveNewConfig_def Let_def split: option.splits prod.splits)

lemma createBackup_backup_cases:
  "rconf_createBackup e False st = (r, st') \<Longrightarrow>
   (st' = st \<and> (snd r = None \<longrightarrow> backup st \<noteq> None \<and> live st \<noteq> None))
   \<or> (snd r = None \<and> backup st = None \<and> live st \<noteq> None
      \<and> st' = st\<lparr>live := None, backup := live st, renames := Suc (renames st)\<rparr>)"
  by (cases "live st"; cases "backup st"; cases "rename_err e")
     (auto simp add: createBackup_no_source createBackup_kept createBackup_rename_failed createBackup_moved)

lemma saveNewConfig_backup:
  "live st = None \<or> backup st \<noteq> None \<Longrightarrow> backup (snd (saveNewConfig e d st)) = backup st"
  by (cases "live st"; cases "backup st")
     (auto simp add: saveNewConfig_def createBackupIfNotExists_def Let_def createBackup_no_source createBackup_kept
      split: option.splits prod.splits)

lemma SetManual_ok_live:
  assumes "\<not> IsEmpty d" and "rconf_implSetManual e d st = ((r, None), st')"
  shows "live st' = Some \<lparr>content = resolv_text (argv0 e) d\<rparr>"
  using assms
  by (auto simp add: rconf_implSetManual_def Let_def backup_failed_def start_monitoring_def
      split: prod.splits option.splits if_splits dest: saveNewConfig_ok_live)

lemma resolv_text_split:
  "resolv_text prog d = resolv_header prog @ nameserver_line (IP_String (Ip d))"
  by (simp add: resolv_text_def resolv_header_def nameserver_line_def)

lemma os_Rename_probes:
  "os_Rename e src dst st = (r, st') \<Longrightarrow> snap_probes st' = snap_probes st"
  by (cases src; cases dst) (auto simp add: os_Rename_def put_file_def split: option.splits)

lemma createBackup_probes:
  "rconf_createBackup e ow st = (r, st') \<Longrightarrow> snap_probes st' = snap_probes st"
  by (auto simp add: rconf_createBackup_def split: option.splits prod.splits if_splits
      dest: os_Rename_probes)

lemma restoreBackup_probes:
  "rconf_restoreBackup e st = (r, st') \<Longrightarrow> snap_probes st' = snap_probes st"
  by (auto simp add: rconf_restoreBackup_def split: option.splits prod.splits
      dest: os_Rename_probes)

lemma saveNewConfig_probes:
  "saveNewConfig e d st = (r, st') \<Longrightarrow> snap_probes st' = snap_probes st"
  by (cases "createBackupIfNotExists e st")
     (auto simp add: saveNewConfig_def Let_def createBackupIfNotExists_def
      split: option.splits prod.splits dest: createBackup_probes)

lemma backup_failed_result:
  "snap_probes (snd (backup_failed e err st)) \<noteq> snap_probes st"
  "fst (fst (backup_failed e err st)) = DnsSettings_zero"
  "snd (fst (backup_failed e err st)) \<noteq> None"
  by (simp_all add: backup_failed_def Let_def)

lemma SetManual_empty:
  "IsEmpty d \<Longrightarrow>
   rconf_implSetManual e d st
     = ((DnsSettings_zero,
         fst (rconf_restoreBackup e
           (rconf_stopDNSChangeMonitoring (rconf_stopDNSChangeMonitoring st)))),
        snd (rconf_restoreBackup e
          (rconf_stopDNSChangeMonitoring (rconf_stopDNSChangeMonitoring st))))"
  by (simp add: rconf_implSetManual_def rconf_implDeleteManual_def split: prod.splits)

lemma SetManual_backup_failed:
  "\<not> IsEmpty d \<Longrightarrow>
   createBackupIfNotExists e (rconf_stopDNSChangeMonitoring st) = ((c, Some err), st1) \<Longrightarrow>
   rconf_implSetManual e d st = backup_failed e err st1"
  by (simp add: rconf_implSetManual_def)

lemma SetManual_backup_ok:
  "\<not> IsEmpty d \<Longrightarrow>
   createBackupIfNotExists e (rconf_stopDNSChangeMonitoring st) = ((c, None), st1) \<Longrightarrow>
   rconf_implSetManual e d st =
     (case saveNewConfig e d st1 of
        (Some err, st2) \<Rightarrow> ((DnsSettings_zero, Some err), st2)
      | (None, st2) \<Rightarrow> ((d, None), start_monitoring d st2))"
  by (simp add: rconf_implSetManual_def)

subsection \<open>The settings returned with an error\<close>

text \<open>
  Claim C10. Whenever \<^verbatim>\<open>SetManual\<close> returns an error, the settings it returns are
  the zero value of \<^verbatim>\<open>DnsSettings\<close>, never the settings it was given.
\<close>

theorem SetManual_error_returns_zero:
  "snd (fst (rconf_implSetManual e d st)) \<noteq> None \<Longrightarrow>
   fst (fst (rconf_implSetManual e d st)) = DnsSettings_zero"
  by (auto simp add: rconf_implSetManual_def Let_def backup_failed_def
      split: prod.splits option.splits if_splits)

theorem SetManual_error_returns_zero_witness:
  "snd (fst (rconf_implSetManual env_rename_fails dns_one st_fresh))
     = Some (Errorf ''failed to backup DNS configuration: '' (Errno ''operation not permitted'') [])
   \<and> fst (fst (rconf_implSetManual env_rename_fails dns_one st_fresh)) = DnsSettings_zero"
  using SetManual_error_returns_zero [where e = env_rename_fails and d = dns_one and st = st_fresh]
  by (simp add: rconf_implSetManual_def createBackupIfNotExists_def backup_failed_def
      createBackup_rename_failed [where f = original_conf] IsEmpty_def dns_one_def
      env_rename_fails_def env_ok_def st_fresh_def)

subsection \<open>Environment diagnostics\<close>

text \<open>
  Claim C9. When the backup step of \<^verbatim>\<open>SetManual\<close> fails with \<open>err\<close> inside a snap
  that may not manage the resolver file and says so in a message, \<^verbatim>\<open>SetManual\<close>
  returns, instead of \<open>err\<close>, the error that wraps \<open>err\<close> and appends the message. The
  snap diagnostics are not called on the success path: a call into them happens only for
  non-empty settings whose backup step failed.
\<close>

theorem SetManual_snap_diagnostic:
  "(\<not> IsEmpty d
      \<and> snd (fst (createBackupIfNotExists e (rconf_stopDNSChangeMonitoring st))) = Some err
      \<and> snap_envs e \<and> \<not> snap_allowed e \<and> snap_msg e \<noteq> [] \<longrightarrow>
        fst (rconf_implSetManual e d st)
          = (DnsSettings_zero, Some (Errorf [] err (''\<newline>\<newline>'' @ snap_msg e)))
        \<and> Errorf [] err (''\<newline>\<newline>'' @ snap_msg e) \<noteq> err
        \<and> Error_text (Errorf [] err (''\<newline>\<newline>'' @ snap_msg e))
            = Error_text err @ ''\<newline>\<newline>'' @ snap_msg e)
   \<and> (snd (fst (rconf_implSetManual e d st)) = None \<longrightarrow>
        snap_probes (snd (rconf_implSetManual e d st)) = snap_probes st)
   \<and> (snap_probes (snd (rconf_implSetManual e d st)) \<noteq> snap_probes st \<longrightarrow>
        \<not> IsEmpty d
        \<and> snd (fst (createBackupIfNotExists e (rconf_stopDNSChangeMonitoring st))) \<noteq> None)"
proof (cases "IsEmpty d")
  case True
  then show ?thesis
    using restoreBackup_probes [OF surjective_pairing, of e
        "rconf_stopDNSChangeMonitoring (rconf_stopDNSChangeMonitoring st)"]
    by (simp add: SetManual_empty)
next
  case False
  obtain c r st1 where cb: "createBackupIfNotExists e (rconf_stopDNSChangeMonitoring st) = ((c, r), st1)"
    by (metis prod.exhaust)
  have p1: "snap_probes st1 = snap_probes st"
    using createBackup_probes [OF cb [unfolded createBackupIfNotExists_def]] by simp
  show ?thesis
  proof (cases r)
    case None
    have "snap_probes (snd (rconf_implSetManual e d st)) = snap_probes st"
      using saveNewConfig_probes [OF surjective_pairing, of e d st1] p1
      by (cases "saveNewConfig e d st1")
         (auto simp add: SetManual_backup_ok [OF False cb [unfolded None]] start_monitoring_def
          split: option.splits)
    with None cb show ?thesis by simp
  next
    case (Some err')
    have sm: "rconf_implSetManual e d st = backup_failed e err' st1"
      using SetManual_backup_failed [OF False cb [unfolded Some]] .
    show ?thesis using False Some cb
      by (simp add: sm backup_failed_result) (simp add: backup_failed_def Let_def)
  qed
qed

theorem SetManual_snap_diagnostic_witness:
  "\<not> IsEmpty dns_one
   \<and> snd (fst (createBackupIfNotExists env_snap_denied (rconf_stopDNSChangeMonitoring st_fresh)))
       = Some (Errorf ''failed to backup DNS configuration: '' (Errno ''permission denied'') [])
   \<and> snap_envs env_snap_denied \<and> \<not> snap_allowed env_snap_denied \<and> snap_msg env_snap_denied \<noteq> []
   \<and> fst (rconf_implSetManual env_snap_denied dns_one st_fresh)
       = (DnsSettings_zero, Some (Errorf []
            (Errorf ''failed to backup DNS configuration: '' (Errno ''permission denied'') [])
            (''\<newline>\<newline>'' @ ''connect the snap interface network-control'')))
   \<and> snd (fst (rconf_implSetManual env_ok dns_one st_fresh)) = None
   \<and> snap_probes (snd (rconf_implSetManual env_ok dns_one st_fresh)) = snap_probes st_fresh
   \<and> snap_probes (snd (rconf_implSetManual env_snap_denied dns_one st_fresh)) \<noteq> snap_probes st_fresh"
  using SetManual_snap_diagnostic [where d = dns_one and e = env_snap_denied and st = st_fresh
      and err = "Errorf ''failed to backup DNS configuration: '' (Errno ''permission denied'') []"]
    SetManual_snap_diagnostic [where d = dns_one and e = env_ok and st = st_fresh]
  by (simp add: IsEmpty_def dns_one_def env_snap_denied_def env_ok_def st_fresh_def
      createBackupIfNotExists_def createBackup_rename_failed createBackup_moved
      rconf_implSetManual_def backup_failed_def saveNewConfig_def createBackup_no_source
      start_monitoring_def Let_def)

subsection \<open>SetManual on the concrete states\<close>

lemma SetManual_fresh:
  assumes "\<not> IsEmpty d" and "live st = Some f" and "backup st = None"
    and "rename_err e = None" and "open_err e = None" and "write_err e = None"
    and "sync_err e = None"
  shows "rconf_implSetManual e d st =
     ((d, None),
      st\<lparr>live := Some \<lparr>content = resolv_text (argv0 e) d\<rparr>,
         backup := Some f,
         monitors := stop_first (monitors st) @ [\<lparr>phase = Starting, settings = d\<rparr>],
         renames := Suc (renames st)\<rparr>)"
  using assms
  by (simp add: rconf_implSetManual_def createBackupIfNotExists_def createBackup_moved
      createBackup_no_source saveNewConfig_def start_monitoring_def Let_def
      rconf_stopDNSChangeMonitoring_def)

lemma SetManual_again:
  assumes "\<not> IsEmpty d" and "live st = Some f" and "backup st = Some b"
    and "open_err e = None" and "write_err e = None" and "sync_err e = None"
  shows "rconf_implSetManual e d st =
     ((d, None),
      st\<lparr>live := Some \<lparr>content = resolv_text (argv0 e) d\<rparr>,
         monitors := stop_first (monitors st) @ [\<lparr>phase = Starting, settings = d\<rparr>]\<rparr>)"
  using assms
  by (simp add: rconf_implSetManual_def createBackupIfNotExists_def createBackup_kept
      saveNewConfig_def start_monitoring_def Let_def rconf_stopDNSChangeMonitoring_def)

lemma env_ok_fields [simp]:
  "argv0 env_ok = ''/usr/bin/ivpn-service''" "rename_err env_ok = None" "open_err env_ok = None"
  "write_err env_ok = None" "sync_err env_ok = None" "\<not> watcher_fails env_ok"
  "\<not> snap_envs env_ok"
  by (simp_all add: env_ok_def)

lemma st_fresh_fields [simp]:
  "live st_fresh = Some original_conf" "backup st_fresh = None" "monitors st_fresh = []"
  "renames st_fresh = 0" "snap_probes st_fresh = 0"
  by (simp_all add: st_fresh_def)

lemma dns_nonempty [simp]: "\<not> IsEmpty dns_one" "\<not> IsEmpty dns_two"
  by (simp_all add: IsEmpty_def dns_one_def dns_two_def)

lemma SetManual_fresh_one:
  "rconf_implSetManual env_ok dns_one st_fresh = ((dns_one, None), st_override)"
  by (simp add: SetManual_fresh [where f = original_conf]) (simp add: st_fresh_def st_override_def)

lemma Ip_dns [simp]:
  "IP_String (Ip dns_one) = ''10.0.0.1''" "IP_String (Ip dns_two) = ''10.0.0.1''"
  by (simp_all add: Ip_def IP_String_def dns_one_def dns_two_def)

lemma spec_text_two:
  "spec_resolv_text prog dns_two
     = resolv_header prog @ ''nameserver 10.0.0.1\<newline>nameserver 10.0.0.2\<newline>''"
  by (simp add: spec_resolv_text_def nameserver_line_def dns_two_def)

subsection \<open>The text of the override\<close>

text \<open>
  Claim C1, as the code has it. After \<^verbatim>\<open>SetManual\<close> succeeds on non-empty settings,
  the live path holds the header comment followed by exactly one nameserver line, for the
  one address \<^verbatim>\<open>Ip()\<close> of the settings. Every successful call with the same settings
  and program name leaves the same file. For settings of one address this is the text of
  the specification, one line per address.
\<close>

theorem SetManual_writes_one_nameserver:
  assumes "\<not> IsEmpty d" and "rconf_implSetManual e d st = ((r, None), st')"
  shows "map_option content (live st')
           = Some (resolv_header (argv0 e) @ nameserver_line (IP_String (Ip d)))
         \<and> (\<forall>e2 st2 r2 st2'.
               argv0 e2 = argv0 e \<and> rconf_implSetManual e2 d st2 = ((r2, None), st2')
                 \<longrightarrow> live st2' = live st')
         \<and> (\<forall>a. addresses d = [a] \<longrightarrow>
               map_option content (live st') = Some (spec_resolv_text (argv0 e) d))"
proof (intro conjI allI impI)
  have l: "live st' = Some \<lparr>content = resolv_text (argv0 e) d\<rparr>"
    using assms by (rule SetManual_ok_live)
  show "map_option content (live st')
          = Some (resolv_header (argv0 e) @ nameserver_line (IP_String (Ip d)))"
    by (simp only: l resolv_text_split option.map conf_file.simps)
  show "live st2' = live st'"
    if "argv0 e2 = argv0 e \<and> rconf_implSetManual e2 d st2 = ((r2, None), st2')"
    for e2 st2 r2 st2'
  proof -
    from that have "live st2' = Some \<lparr>content = resolv_text (argv0 e2) d\<rparr>"
      using SetManual_ok_live [OF assms(1)] by blast
    with that l show ?thesis by simp
  qed
  show "map_option content (live st') = Some (spec_resolv_text (argv0 e) d)"
    if "addresses d = [a]" for a
    using that
    by (simp add: l resolv_text_split spec_resolv_text_def Ip_def IP_String_def)
qed

theorem SetManual_writes_one_nameserver_witness:
  "\<not> IsEmpty dns_one
   \<and> rconf_implSetManual env_ok dns_one st_fresh = ((dns_one, None), st_override)
   \<and> map_option content (live st_override)
       = Some (resolv_header ''/usr/bin/ivpn-service'' @ nameserver_line ''10.0.0.1'')
   \<and> snd (fst (rconf_implSetManual env_ok dns_one st_override)) = None
   \<and> live (snd (rconf_implSetManual env_ok dns_one st_override)) = live st_override
   \<and> map_option content (live st_override) = Some (spec_resolv_text (argv0 env_ok) dns_one)"
proof -
  have again: "rconf_implSetManual env_ok dns_one st_override
      = ((dns_one, None),
         st_override\<lparr>monitors := [\<lparr>phase = Starting, settings = dns_one\<rparr>,
           \<lparr>phase = Starting, settings = dns_one\<rparr>]\<rparr>)"
    by (simp add: SetManual_again [where f = "\<lparr>content = resolv_text (argv0 env_ok) dns_one\<rparr>"
          and b = original_conf] st_override_def waiting_def)
  have one: "addresses dns_one = [''10.0.0.1'']" by (simp add: dns_one_def)
  from SetManual_writes_one_nameserver [OF dns_nonempty(1) SetManual_fresh_one] again one
  show ?thesis by (simp add: SetManual_fresh_one)
qed

text \<open>
  Settings of two addresses: the call succeeds and writes one nameserver line, not the two
  lines of the specification.
\<close>

theorem SetManual_line_per_address_counterexample:
  "\<not> IsEmpty dns_two
   \<and> snd (fst (rconf_implSetManual env_ok dns_two st_fresh)) = None
   \<and> map_option content (live (snd (rconf_implSetManual env_ok dns_two st_fresh)))
       = Some (resolv_header ''/usr/bin/ivpn-service'' @ ''nameserver 10.0.0.1\<newline>'')
   \<and> map_option content (live (snd (rconf_implSetManual env_ok dns_two st_fresh)))
       \<noteq> Some (spec_resolv_text (argv0 env_ok) dns_two)"
  by (simp add: SetManual_fresh [where f = original_conf] resolv_text_split nameserver_line_def
      spec_text_two)

subsection \<open>Round trip\<close>

lemma os_Rename_monitors:
  "os_Rename e src dst st = (r, st') \<Longrightarrow> monitors st' = monitors st"
  by (cases src; cases dst) (auto simp add: os_Rename_def put_file_def split: option.splits)

lemma createBackup_monitors:
  "rconf_createBackup e ow st = (r, st') \<Longrightarrow> monitors st' = monitors st"
  by (auto simp add: rconf_createBackup_def split: option.splits prod.splits if_splits
      dest: os_Rename_monitors)

lemma saveNewConfig_monitors:
  "saveNewConfig e d st = (r, st') \<Longrightarrow> monitors st' = monitors st"
  by (cases "createBackupIfNotExists e st")
     (auto simp add: saveNewConfig_def Let_def createBackupIfNotExists_def
      split: option.splits prod.splits dest: createBackup_monitors)

lemma stop_first_all_waiting:
  "list_all waiting gs \<Longrightarrow> length gs \<le> 1 \<Longrightarrow> stop_first gs = []"
  by (cases gs) auto

lemma in_session_monitors: "in_session L st \<Longrightarrow> length (monitors st) \<le> 1"
  by (auto simp add: in_session_def)

lemma in_session_stopped:
  assumes "in_session L st" and "all_waiting st"
  shows "in_session L (rconf_stopDNSChangeMonitoring st)"
    and "monitors (rconf_stopDNSChangeMonitoring st) = []"
proof -
  show m: "monitors (rconf_stopDNSChangeMonitoring st) = []"
    using assms stop_first_all_waiting [of "monitors st"] in_session_monitors [OF assms(1)]
    by (simp add: all_waiting_def)
  from assms(1) m show "in_session L (rconf_stopDNSChangeMonitoring st)"
    by (auto simp add: in_session_def)
qed

lemma restoreBackup_in_session:
  assumes "in_session L st" and "monitors st = []" and "rconf_restoreBackup e st = (None, st')"
  shows "live st' = L \<and> backup st' = None \<and> monitors st' = []"
  using assms
  by (cases "backup st"; cases "rename_err e")
     (auto simp add: in_session_def restoreBackup_nothing restoreBackup_moved restoreBackup_failed)

lemma saveNewConfig_keeps_backup:
  "saveNewConfig e d st = (r, st') \<Longrightarrow> live st = None \<or> backup st \<noteq> None \<Longrightarrow>
   backup st' = backup st"
  using saveNewConfig_backup [of st e d] by simp

lemma SetManual_in_session:
  assumes "in_session L st" and "all_waiting st"
    and "rconf_implSetManual e d st = ((r, None), st')"
  shows "in_session L st'"
proof -
  let ?s0 = "rconf_stopDNSChangeMonitoring st"
  note s0 = in_session_stopped [OF assms(1,2)]
  show ?thesis
  proof (cases "IsEmpty d")
    case True
    let ?s1 = "rconf_stopDNSChangeMonitoring ?s0"
    have s1: "in_session L ?s1" "monitors ?s1 = []"
      using s0 by (auto simp add: in_session_def)
    from True assms(3) have "rconf_restoreBackup e ?s1 = (None, st')"
      by (simp add: SetManual_empty prod_eq_iff)
    from restoreBackup_in_session [OF s1 this] show ?thesis
      by (simp add: in_session_def)
  next
    case False
    obtain c rb st1 where cb: "createBackupIfNotExists e ?s0 = ((c, rb), st1)"
      by (metis prod.exhaust)
    have rb: "rb = None"
    proof (cases rb)
      case (Some err)
      have "snd (fst (rconf_implSetManual e d st)) \<noteq> None"
        by (simp add: SetManual_backup_failed [OF False cb [unfolded Some]] backup_failed_result(3))
      moreover have "snd (fst (rconf_implSetManual e d st)) = None"
        by (simp add: assms(3))
      ultimately show ?thesis by simp
    qed simp
    obtain r2 st2 where sv: "saveNewConfig e d st1 = (r2, st2)" by (metis prod.exhaust)
    from SetManual_backup_ok [OF False cb [unfolded rb]] assms(3) sv
    have r2: "r2 = None" and st': "st' = start_monitoring d st2"
      by (auto split: option.splits)
    from createBackup_backup_cases [OF cb [unfolded createBackupIfNotExists_def]] rb s0(1)
    have b1: "backup st1 = L \<and> L \<noteq> None \<and> (live st1 = None \<or> backup st1 \<noteq> None)"
      by (auto simp add: in_session_def)
    with saveNewConfig_keeps_backup [OF sv] have b2: "backup st2 = L" by simp
    have "monitors st2 = []"
      using saveNewConfig_monitors [OF sv]
        createBackup_monitors [OF cb [unfolded createBackupIfNotExists_def]] s0(2) by simp
    with b1 b2 st' show ?thesis by (simp add: in_session_def start_monitoring_def)
  qed
qed

lemma monitor_step_in_session:
  assumes "in_session L st"
  shows "in_session L (monitor_step e i st)"
proof (cases "length (monitors st) \<le> i")
  case True
  with assms show ?thesis by (simp add: monitor_step_def)
next
  case False
  with in_session_monitors [OF assms] obtain g where ms: "monitors st = [g]" and i: "i = 0"
    by (cases "monitors st") auto
  with assms have b: "backup st = L" "L \<noteq> None" by (auto simp add: in_session_def)
  let ?s1 = "snd (saveNewConfig e (settings g) st)"
  have s1: "backup ?s1 = L" "monitors ?s1 = [g]"
    using saveNewConfig_keeps_backup [OF surjective_pairing, where e = e and d = "settings g" and st = st]
      saveNewConfig_monitors [OF surjective_pairing, where e = e and d = "settings g" and st = st]
      b ms
    by auto
  show ?thesis
    using ms i b s1
    by (cases "phase g") (auto simp add: monitor_step_def in_session_def Let_def)
qed

lemma orderly_run_in_session:
  "in_session L st \<Longrightarrow> orderly_run acts st = Some st1 \<Longrightarrow> in_session L st1"
proof (induction acts arbitrary: st)
  case Nil
  then show ?case by simp
next
  case (Cons a acts)
  show ?case
  proof (cases a)
    case (Call e d)
    with Cons.prems(2) have w: "all_waiting st" by (auto split: if_splits)
    obtain r err st' where sm: "rconf_implSetManual e d st = ((r, err), st')"
      by (metis prod.exhaust)
    with Cons.prems(2) Call w have err: "err = None" and rest: "orderly_run acts st' = Some st1"
      by (auto split: option.splits)
    from SetManual_in_session [OF Cons.prems(1) w sm [unfolded err]] Cons.IH rest
    show ?thesis by blast
  next
    case (Step e i)
    with Cons.prems(2) have "orderly_run acts (monitor_step e i st) = Some st1" by simp
    with Cons.IH monitor_step_in_session [OF Cons.prems(1)] show ?thesis by blast
  qed
qed

lemma restoreBackup_error_unchanged:
  "rconf_restoreBackup e st = (Some err, st') \<Longrightarrow> st' = st \<and> backup st \<noteq> None"
  by (cases "backup st"; cases "rename_err e")
     (auto simp add: restoreBackup_nothing restoreBackup_moved restoreBackup_failed)


lemma saveNewConfig_again:
  assumes "live st = Some f" and "backup st = Some b"
    and "open_err e = None" and "write_err e = None" and "sync_err e = None"
  shows "saveNewConfig e d st = (None, st\<lparr>live := Some \<lparr>content = resolv_text (argv0 e) d\<rparr>\<rparr>)"
  using assms
  by (simp add: saveNewConfig_def createBackupIfNotExists_def createBackup_kept Let_def)

lemma saveNewConfig_fresh:
  assumes "live st = Some f" and "backup st = None" and "rename_err e = None"
    and "open_err e = None" and "write_err e = None" and "sync_err e = None"
  shows "saveNewConfig e d st =
     (None, st\<lparr>live := Some \<lparr>content = resolv_text (argv0 e) d\<rparr>, backup := Some f,
        renames := Suc (renames st)\<rparr>)"
  using assms
  by (simp add: saveNewConfig_def createBackupIfNotExists_def createBackup_moved Let_def)

lemma monitor_step_single:
  "monitors st = [g] \<Longrightarrow>
   monitor_step e 0 st =
     (case phase g of
        Starting \<Rightarrow>
          if watch_fails e st then st\<lparr>monitors := []\<rparr>
          else st\<lparr>monitors := [g\<lparr>phase := Watching\<rparr>]\<rparr>
      | Watching \<Rightarrow> st\<lparr>monitors := [g\<lparr>phase := Debouncing\<rparr>]\<rparr>
      | Debouncing \<Rightarrow> st\<lparr>monitors := [g\<lparr>phase := Reasserting\<rparr>]\<rparr>
      | Reasserting \<Rightarrow>
          (let st1 = snd (saveNewConfig e (settings g) st) in
           if watch_fails e st1 then st1\<lparr>monitors := []\<rparr>
           else st1\<lparr>monitors := [g\<lparr>phase := Watching\<rparr>]\<rparr>))"
  by (simp add: monitor_step_def Let_def split: phase.splits)

lemma four_steps_reassert:
  assumes "monitors st = [\<lparr>phase = Starting, settings = d\<rparr>]"
    and "live st = Some f"
    and "saveNewConfig env_ok d st = (None, st')" and "live st' \<noteq> None"
  shows "monitor_step env_ok 0 (monitor_step env_ok 0 (monitor_step env_ok 0
           (monitor_step env_ok 0 st)))
         = st'\<lparr>monitors := [\<lparr>phase = Watching, settings = d\<rparr>]\<rparr>"
proof -
  let ?g = "\<lambda>p. \<lparr>phase = p, settings = d\<rparr>"
  have 1: "monitor_step env_ok 0 st = st\<lparr>monitors := [?g Watching]\<rparr>"
    using assms(1,2) by (simp add: monitor_step_single watch_fails_def)
  have 2: "monitor_step env_ok 0 (st\<lparr>monitors := [?g Watching]\<rparr>)
      = st\<lparr>monitors := [?g Debouncing]\<rparr>"
    by (simp add: monitor_step_single [where g = "?g Watching"])
  have 3: "monitor_step env_ok 0 (st\<lparr>monitors := [?g Debouncing]\<rparr>)
      = st\<lparr>monitors := [?g Reasserting]\<rparr>"
    by (simp add: monitor_step_single [where g = "?g Debouncing"])
  have sv: "saveNewConfig env_ok d (st\<lparr>monitors := [?g Reasserting]\<rparr>)
      = (None, st'\<lparr>monitors := [?g Reasserting]\<rparr>)"
    using assms(3)
    by (auto simp add: saveNewConfig_def createBackupIfNotExists_def rconf_createBackup_def
        os_Rename_def file_at_def put_file_def Let_def split: option.splits prod.splits if_splits)
  have 4: "monitor_step env_ok 0 (st\<lparr>monitors := [?g Reasserting]\<rparr>)
      = st'\<lparr>monitors := [?g Watching]\<rparr>"
    using assms(4)
    by (auto simp add: monitor_step_single [where g = "?g Reasserting"] sv watch_fails_def Let_def)
  show ?thesis by (simp only: 1 2 3 4)
qed



text \<open>
  A stop request that is dropped. \<^verbatim>\<open>DeleteManual\<close> is called while the goroutine of the
  last \<^verbatim>\<open>SetManual\<close> has not reached its \<^verbatim>\<open>select\<close>: the call restores the original
  and returns nil, and the goroutine stays alive. After an event of the live path and the
  two seconds, it moves the restored file to the Backup and writes the override again.
\<close>

lemma dropped_stop_reasserts:
  "\<not> all_waiting st_override
   \<and> rconf_implDeleteManual env_ok st_override
       = (None, st_fresh\<lparr>monitors := [\<lparr>phase = Starting, settings = dns_one\<rparr>], renames := 2\<rparr>)
   \<and> monitor_step env_ok 0 (monitor_step env_ok 0 (monitor_step env_ok 0 (monitor_step env_ok 0
        (st_fresh\<lparr>monitors := [\<lparr>phase = Starting, settings = dns_one\<rparr>], renames := 2\<rparr>))))
       = st_override\<lparr>monitors := [\<lparr>phase = Watching, settings = dns_one\<rparr>], renames := 3\<rparr>"
proof -
  let ?r = "st_fresh\<lparr>monitors := [\<lparr>phase = Starting, settings = dns_one\<rparr>], renames := 2\<rparr>"
  have del: "rconf_implDeleteManual env_ok st_override = (None, ?r)"
    by (simp add: rconf_implDeleteManual_def restoreBackup_moved [where b = original_conf]
        st_override_def st_fresh_def rconf_stopDNSChangeMonitoring_def waiting_def)
  have sv: "saveNewConfig env_ok dns_one ?r = (None, st_override\<lparr>renames := 3\<rparr>)"
    by (simp add: saveNewConfig_fresh [where f = original_conf] st_override_def st_fresh_def)
  have "monitor_step env_ok 0 (monitor_step env_ok 0 (monitor_step env_ok 0
           (monitor_step env_ok 0 ?r)))
      = (st_override\<lparr>renames := 3\<rparr>)\<lparr>monitors := [\<lparr>phase = Watching, settings = dns_one\<rparr>]\<rparr>"
    by (rule four_steps_reassert [where f = original_conf, OF _ _ sv])
       (simp_all add: st_override_def)
  with del show ?thesis by (simp add: all_waiting_def waiting_def st_override_def)
qed

subsection \<open>The invariant of the data model\<close>

lemma override_text_iff:
  "override_text prog txt = (\<exists>a. txt = resolv_header prog @ nameserver_line a)"
proof
  let ?h = "resolv_header prog @ ''nameserver ''"
  assume "override_text prog txt"
  then have pre: "take (length ?h) txt = ?h" and len: "length ?h < length txt"
    and nl: "last txt = CHR 0x0A"
    by (simp_all add: override_text_def Let_def)
  let ?r = "drop (length ?h) txt"
  have "take (length ?h) txt @ ?r = txt" by (rule append_take_drop_id)
  with pre have "txt = ?h @ ?r" by simp
  moreover have "?r \<noteq> []" using len by simp
  moreover have "last ?r = CHR 0x0A" using nl len by simp
  ultimately have "txt = ?h @ butlast ?r @ [CHR 0x0A]"
    using append_butlast_last_id [of ?r] by simp
  then have "txt = resolv_header prog @ nameserver_line (butlast ?r)"
    by (simp add: nameserver_line_def)
  then show "\<exists>a. txt = resolv_header prog @ nameserver_line a" ..
next
  assume "\<exists>a. txt = resolv_header prog @ nameserver_line a"
  then show "override_text prog txt"
    by (auto simp add: override_text_def Let_def nameserver_line_def)
qed

lemma resolv_text_override: "override_text prog (resolv_text prog d)"
  unfolding override_text_iff resolv_text_split by blast

lemma short_text_not_override:
  "length txt \<le> length (resolv_header prog @ ''nameserver '') \<Longrightarrow> \<not> override_text prog txt"
  by (simp add: override_text_def Let_def)

lemma session_consistent_cases:
  "session_consistent prog st =
     (case backup st of
        None \<Rightarrow> (case live st of None \<Rightarrow> True | Some f \<Rightarrow> \<not> override_text prog (content f))
      | Some b \<Rightarrow> \<not> override_text prog (content b)
          \<and> (case live st of None \<Rightarrow> False | Some f \<Rightarrow> override_text prog (content f)))"
  by (cases "backup st"; cases "live st")
     (auto simp add: session_consistent_def backup_invariant_def backup_is_original_def
      holds_override_def)

lemma session_consistent_files:
  "live st' = live st \<Longrightarrow> backup st' = backup st \<Longrightarrow>
   session_consistent prog st' = session_consistent prog st"
  by (simp add: session_consistent_def backup_invariant_def backup_is_original_def)

lemma restoreBackup_consistent:
  assumes "session_consistent prog st" and "rconf_restoreBackup e st = (r, st')"
  shows "session_consistent prog st'"
proof (cases "backup st")
  case None
  with assms show ?thesis by (simp add: restoreBackup_nothing)
next
  case (Some b)
  show ?thesis
  proof (cases "rename_err e")
    case None
    from assms(2) have "st' = st\<lparr>live := Some b, backup := None, renames := Suc (renames st)\<rparr>"
      by (simp add: restoreBackup_moved [OF Some None])
    with assms(1) Some show ?thesis by (simp add: session_consistent_cases split: option.splits)
  next
    case (Some err)
    from assms show ?thesis by (simp add: restoreBackup_failed [OF \<open>backup st = Some b\<close> Some])
  qed
qed

lemma stop_consistent [simp]:
  "session_consistent prog (rconf_stopDNSChangeMonitoring st) = session_consistent prog st"
  by (rule session_consistent_files) simp_all

lemma DeleteManual_consistent:
  "session_consistent prog st \<Longrightarrow> rconf_implDeleteManual e st = (r, st') \<Longrightarrow>
   session_consistent prog st'"
  unfolding rconf_implDeleteManual_def
  using restoreBackup_consistent [of prog "rconf_stopDNSChangeMonitoring st"] by simp

lemma Pause_consistent:
  assumes "session_consistent prog st" and "rconf_implPause e st = (r, st')"
  shows "session_consistent prog st'"
proof (cases "rconf_isBackupExists st")
  case True
  with assms(2) have "rconf_restoreBackup e (rconf_stopDNSChangeMonitoring st) = (r, st')"
    by (simp add: rconf_implPause_def)
  from restoreBackup_consistent [OF _ this] assms(1) show ?thesis by simp
next
  case False
  with assms show ?thesis by (simp add: rconf_implPause_def)
qed

lemma Initialize_consistent:
  assumes "session_consistent prog st" and "rconf_implInitialize e st = (r, st')"
  shows "session_consistent prog st'"
proof (cases "backup st")
  case None
  with assms show ?thesis by (simp add: rconf_implInitialize_def)
next
  case (Some b)
  obtain r0 st0 where d: "rconf_implDeleteManual e st = (r0, st0)" by (metis prod.exhaust)
  with Some assms(2) have "st' = st0"
    by (cases r0) (simp_all add: rconf_implInitialize_def)
  with DeleteManual_consistent [OF assms(1) d] show ?thesis by simp
qed

lemma backup_failed_files:
  "backup_failed e err st = (r, st') \<Longrightarrow> live st' = live st \<and> backup st' = backup st"
  by (auto simp add: backup_failed_def Let_def split: if_splits)

lemma saveNewConfig_cases:
  assumes "saveNewConfig e d st = (r, st')" and "live st = None \<or> backup st \<noteq> None"
  shows "(open_err e \<noteq> None \<and> r \<noteq> None \<and> st' = st)
       \<or> (open_err e = None \<and> r \<noteq> None \<and> backup st' = backup st
          \<and> (\<exists>n err. write_err e = Some (n, err)
                \<and> live st' = Some \<lparr>content = take n (resolv_text (argv0 e) d)\<rparr>))
       \<or> (open_err e = None \<and> write_err e = None \<and> backup st' = backup st
          \<and> live st' = Some \<lparr>content = resolv_text (argv0 e) d\<rparr>)"
proof -
  have same: "snd (createBackupIfNotExists e st) = st"
    using assms(2)
    by (cases "live st"; cases "backup st")
       (simp_all add: createBackupIfNotExists_def createBackup_no_source createBackup_kept)
  show ?thesis
  proof (cases "open_err e")
    case (Some err)
    with assms(1) same show ?thesis by (auto simp add: saveNewConfig_def Let_def)
  next
    case None
    show ?thesis
    proof (cases "write_err e")
      case (Some w)
      with None assms(1) same show ?thesis
        by (cases w) (auto simp add: saveNewConfig_def Let_def)
    next
      case wn: None
      with None assms(1) same show ?thesis
        by (cases "sync_err e") (auto simp add: saveNewConfig_def Let_def)
    qed
  qed
qed

lemma SetManual_consistent:
  assumes "session_consistent prog st" and "argv0 e = prog"
    and "rconf_implSetManual e d st = ((r, err), st')"
  shows "backup_is_original prog st'
       \<and> (backup_invariant prog st'
          \<or> (err \<noteq> None \<and> \<not> IsEmpty d
             \<and> ((open_err e \<noteq> None \<and> backup st = None \<and> live st' = None
                   \<and> backup st' = live st)
                \<or> (open_err e = None \<and> backup st' \<noteq> None
                   \<and> (\<exists>n werr. write_err e = Some (n, werr)
                         \<and> live st' = Some \<lparr>content = take n (resolv_text prog d)\<rparr>)))))"
proof (cases "IsEmpty d")
  case True
  let ?s2 = "rconf_stopDNSChangeMonitoring (rconf_stopDNSChangeMonitoring st)"
  from True assms(3) have "rconf_restoreBackup e ?s2 = (err, st')"
    by (simp add: SetManual_empty prod_eq_iff)
  from restoreBackup_consistent [where prog = prog, OF _ this] assms(1)
  have "session_consistent prog st'" by simp
  then show ?thesis by (simp add: session_consistent_def)
next
  case False
  let ?s0 = "rconf_stopDNSChangeMonitoring st"
  obtain c rb st1 where cb: "createBackupIfNotExists e ?s0 = ((c, rb), st1)"
    by (metis prod.exhaust)
  note shape = createBackup_backup_cases [OF cb [unfolded createBackupIfNotExists_def]]
  show ?thesis
  proof (cases rb)
    case (Some berr)
    with shape have "st1 = ?s0" by auto
    moreover from assms(3) have "backup_failed e berr st1 = ((r, err), st')"
      by (simp add: SetManual_backup_failed [OF False cb [unfolded Some]])
    ultimately have "live st' = live st \<and> backup st' = backup st"
      using backup_failed_files by fastforce
    with assms(1) session_consistent_files [of st' st prog] show ?thesis
      by (simp add: session_consistent_def)
  next
    case None
    obtain r2 st2 where sv: "saveNewConfig e d st1 = (r2, st2)" by (metis prod.exhaust)
    from assms(3) sv have res: "err = r2" "live st' = live st2" "backup st' = backup st2"
      by (auto simp add: SetManual_backup_ok [OF False cb [unfolded None]] start_monitoring_def
          split: option.splits)
    from shape None
    have pre: "live st1 = None \<or> backup st1 \<noteq> None" by auto
    from shape None assms(1)
    have b1: "\<exists>b. backup st1 = Some b \<and> \<not> override_text prog (content b)"
      by (auto simp add: session_consistent_cases split: option.splits)
    from shape consider (kept) "st1 = ?s0"
      | (moved) "backup ?s0 = None"
          "st1 = ?s0\<lparr>live := None, backup := live ?s0, renames := Suc (renames ?s0)\<rparr>"
      by fastforce
    note shape2 = this
    from saveNewConfig_cases [OF sv pre]
    consider (open_failed) "open_err e \<noteq> None" "r2 \<noteq> None" "st2 = st1"
      | (write_failed) n werr where "open_err e = None" "r2 \<noteq> None" "backup st2 = backup st1"
          "write_err e = Some (n, werr)"
          "live st2 = Some \<lparr>content = take n (resolv_text (argv0 e) d)\<rparr>"
      | (written) "backup st2 = backup st1"
          "live st2 = Some \<lparr>content = resolv_text (argv0 e) d\<rparr>"
      by blast
    then show ?thesis
    proof cases
      case open_failed
      from shape2 show ?thesis
      proof cases
        case kept
        with open_failed res have "live st' = live st \<and> backup st' = backup st" by simp
        with assms(1) session_consistent_files [of st' st prog] show ?thesis
          by (simp add: session_consistent_def)
      next
        case moved
        with open_failed res False b1 show ?thesis
          by (auto simp add: backup_is_original_def)
      qed
    next
      case write_failed
      with b1 res False assms(2) show ?thesis
        by (auto simp add: backup_is_original_def)
    next
      case written
      with b1 res assms(2) resolv_text_override [of prog d] show ?thesis
        by (auto simp add: backup_invariant_def backup_is_original_def holds_override_def)
    qed
  qed
qed

text \<open>
  Claim C3, as the code has it. Let the invariant hold when a public operation starts, the
  Backup (if any) being a copy of the original and not override content. When the operation
  returns, the Backup is still a copy of the original, and the invariant holds, unless a
  \<^verbatim>\<open>SetManual\<close> with non-empty settings returns an error from writing the override, in one
  of two ways. Either it has just made the Backup and fails to open the live path: then
  nothing is at the live path. Or the write fails: then the live path holds the bytes
  written so far, an empty or truncated file, and the Backup exists.
\<close>

theorem public_operations_keep_backup_invariant:
  assumes "backup_invariant prog st" and "backup_is_original prog st"
    and "argv0 e = prog" and "run e op st = (r, st')"
  shows "backup_is_original prog st'
       \<and> (backup_invariant prog st'
          \<or> (r \<noteq> None
             \<and> (\<exists>d. op = SetManual d \<and> \<not> IsEmpty d
                  \<and> ((open_err e \<noteq> None \<and> backup st = None \<and> live st' = None
                        \<and> backup st' = live st)
                     \<or> (open_err e = None \<and> backup st' \<noteq> None
                        \<and> (\<exists>n werr. write_err e = Some (n, werr)
                              \<and> live st'
                                  = Some \<lparr>content = take n (resolv_text prog d)\<rparr>))))))"
proof -
  have c: "session_consistent prog st" using assms(1,2) by (simp add: session_consistent_def)
  show ?thesis
  proof (cases op)
    case Initialize
    with assms(4) Initialize_consistent [OF c] show ?thesis
      by (simp add: session_consistent_def)
  next
    case (SetManual d)
    obtain rd where sm: "rconf_implSetManual e d st = ((rd, r), st')"
      using assms(4) SetManual by (cases "rconf_implSetManual e d st") auto
    from SetManual_consistent [OF c assms(3) sm] SetManual show ?thesis
      by blast
  next
    case DeleteManual
    with assms(4) DeleteManual_consistent [OF c] show ?thesis
      by (simp add: session_consistent_def)
  next
    case Pause
    with assms(4) Pause_consistent [OF c] show ?thesis
      by (simp add: session_consistent_def)
  next
    case Resume
    with assms show ?thesis by (auto simp add: rconf_implResume_def)
  qed
qed

lemma original_conf_not_override [simp]:
  "\<not> override_text ''/usr/bin/ivpn-service'' (content original_conf)"
  by (rule short_text_not_override) (simp add: original_conf_def resolv_header_def)

lemma fresh_consistent:
  "backup_invariant ''/usr/bin/ivpn-service'' st_fresh"
  "backup_is_original ''/usr/bin/ivpn-service'' st_fresh"
  by (simp_all add: backup_invariant_def backup_is_original_def holds_override_def)

lemma override_consistent:
  "backup_invariant ''/usr/bin/ivpn-service'' st_override"
  "backup_is_original ''/usr/bin/ivpn-service'' st_override"
  using resolv_text_override [of "''/usr/bin/ivpn-service''" dns_one]
  by (simp_all add: backup_invariant_def backup_is_original_def holds_override_def
      st_override_def)

theorem public_operations_keep_backup_invariant_witness:
  "backup_invariant (argv0 env_ok) st_fresh \<and> backup_is_original (argv0 env_ok) st_fresh
   \<and> run env_ok (SetManual dns_one) st_fresh = (None, st_override)
   \<and> backup_invariant (argv0 env_ok) st_override \<and> backup_is_original (argv0 env_ok) st_override
   \<and> run env_ok DeleteManual st_override
       = (None, st_fresh\<lparr>monitors := [\<lparr>phase = Starting, settings = dns_one\<rparr>], renames := 2\<rparr>)
   \<and> backup_invariant (argv0 env_ok)
        (st_fresh\<lparr>monitors := [\<lparr>phase = Starting, settings = dns_one\<rparr>], renames := 2\<rparr>)
   \<and> backup_is_original (argv0 env_ok)
        (st_fresh\<lparr>monitors := [\<lparr>phase = Starting, settings = dns_one\<rparr>], renames := 2\<rparr>)"
proof -
  let ?p = "''/usr/bin/ivpn-service''"
  let ?r = "st_fresh\<lparr>monitors := [\<lparr>phase = Starting, settings = dns_one\<rparr>], renames := 2\<rparr>"
  have p: "argv0 env_ok = ?p" by simp
  have r1: "run env_ok (SetManual dns_one) st_fresh = (None, st_override)"
    by (simp add: SetManual_fresh_one)
  have r2: "run env_ok DeleteManual st_override = (None, ?r)"
    using dropped_stop_reasserts by simp
  have f: "backup_invariant ?p ?r" "backup_is_original ?p ?r"
    by (simp_all add: backup_invariant_def backup_is_original_def holds_override_def)
  from public_operations_keep_backup_invariant [OF fresh_consistent p r1]
    public_operations_keep_backup_invariant [OF override_consistent p r2]
    fresh_consistent override_consistent r1 r2 f
  show ?thesis by simp
qed

text \<open>
  Both exceptions happen. From the fresh state, where the invariant holds, a \<^verbatim>\<open>SetManual\<close>
  whose open fails leaves the Backup and no live file; one whose write fails after ten
  bytes leaves the Backup and a truncated live file.
\<close>

theorem backup_invariant_counterexample:
  "backup_invariant (argv0 env_open_fails) st_fresh
   \<and> fst (run env_open_fails (SetManual dns_one) st_fresh)
       = Some (Errorf ''failed to update DNS configuration ('' (Errno ''no space left on device'') '')'')
   \<and> backup (snd (run env_open_fails (SetManual dns_one) st_fresh)) = Some original_conf
   \<and> live (snd (run env_open_fails (SetManual dns_one) st_fresh)) = None
   \<and> \<not> backup_invariant (argv0 env_open_fails)
         (snd (run env_open_fails (SetManual dns_one) st_fresh))
   \<and> backup_invariant (argv0 env_write_fails) st_fresh
   \<and> fst (run env_write_fails (SetManual dns_one) st_fresh)
       = Some (Errorf ''failed to change DNS configuration: '' (Errno ''no space left on device'') [])
   \<and> backup (snd (run env_write_fails (SetManual dns_one) st_fresh)) = Some original_conf
   \<and> live (snd (run env_write_fails (SetManual dns_one) st_fresh))
       = Some \<lparr>content = ''# resolv.c''\<rparr>
   \<and> \<not> backup_invariant (argv0 env_write_fails)
         (snd (run env_write_fails (SetManual dns_one) st_fresh))"
proof -
  let ?p = "''/usr/bin/ivpn-service''"
  have p: "argv0 env_open_fails = ?p" "argv0 env_write_fails = ?p"
    by (simp_all add: env_open_fails_def env_write_fails_def)
  have o: "run env_open_fails (SetManual dns_one) st_fresh
      = (Some (Errorf ''failed to update DNS configuration ('' (Errno ''no space left on device'') '')''),
         st_fresh\<lparr>live := None, backup := Some original_conf, renames := 1\<rparr>)"
    by (simp add: rconf_implSetManual_def createBackupIfNotExists_def
        createBackup_moved [where f = original_conf] createBackup_no_source saveNewConfig_def
        Let_def env_open_fails_def st_fresh_def rconf_stopDNSChangeMonitoring_def)
  have w: "run env_write_fails (SetManual dns_one) st_fresh
      = (Some (Errorf ''failed to change DNS configuration: '' (Errno ''no space left on device'') []),
         st_fresh\<lparr>live := Some \<lparr>content = ''# resolv.c''\<rparr>, backup := Some original_conf,
           renames := 1\<rparr>)"
    by (simp add: rconf_implSetManual_def createBackupIfNotExists_def
        createBackup_moved [where f = original_conf] createBackup_no_source saveNewConfig_def
        Let_def env_write_fails_def st_fresh_def rconf_stopDNSChangeMonitoring_def
        resolv_text_def)
  have s: "\<not> override_text ?p ''# resolv.c''"
    by (rule short_text_not_override) (simp add: resolv_header_def)
  show ?thesis
    unfolding o w p fst_conv snd_conv
    using fresh_consistent(1) s
    by (simp add: backup_invariant_def holds_override_def)
qed

end
